theory Spec2Isabelle
  imports Main "HOL-Library.Char_ord" "HOL-Library.List_Lexorder" "HOL-Library.Multiset"
begin

section \<open>AssetsVCSSynchronizer.cpp: a shallow embedding\<close>

text \<open>
  The file \<^verbatim>\<open>Code/Sandbox/Plugins/EditorCommon/VersionControl/AssetsVCSSynchronizer.cpp\<close>
  holds the helpers of namespace \<^verbatim>\<open>Private_AssetsVCSSynchronizer\<close> and the four overloads of
  \<^verbatim>\<open>CAssetsVCSSynchronizer::Sync\<close>. Each C++ function is a HOL function of the same name.
  A vector is a list. A function that writes through a non-const reference returns the new
  content of that argument next to its result. The asynchronous collaborators (status
  provider, version control, layer manager) are not in the file; they are parameters of the
  model, collected in the record \<open>env\<close>, and what they are asked to do is appended to a trace
  of events.
\<close>

subsection \<open>Strings and their two orders\<close>

text \<open>
  \<^verbatim>\<open>string\<close> is the engine's byte string (\<^verbatim>\<open>CryStringT<char>\<close>), here a list of bytes.
  Two orders on it occur in the file, both declared outside of it:
  \<^item> \<^verbatim>\<open>stl::less_stricmp<string>\<close>, which is \<^verbatim>\<open>stricmp(left, right) < 0\<close>: the bytes
    are compared after \<^verbatim>\<open>tolower\<close>, which maps \<^verbatim>\<open>A..Z\<close> to \<^verbatim>\<open>a..z\<close>;
  \<^item> \<^verbatim>\<open>operator<\<close> of the string class, which is \<^verbatim>\<open>strcmp(s1, s2) < 0\<close>: the bytes
    are compared as they are. It is the order an algorithm of the standard library uses
    when no comparator is passed to it.
\<close>

definition to_lower :: "char \<Rightarrow> char" where
  "to_lower c =
     (if CHR ''A'' \<le> c \<and> c \<le> CHR ''Z'' then char_of (of_char c + (32::nat)) else c)"

definition less_stricmp :: "string \<Rightarrow> string \<Rightarrow> bool" where
  "less_stricmp left right = (map to_lower left < map to_lower right)"

definition string_less :: "string \<Rightarrow> string \<Rightarrow> bool" where
  "string_less s1 s2 = (s1 < s2)"

subsection \<open>The algorithms of the standard library that the file calls\<close>

text \<open>
  \<^verbatim>\<open>std::sort(first, last, comp)\<close>. The standard fixes the result up to the order of
  elements that are equivalent under \<open>comp\<close>. Short ranges are sorted by straight
  insertion in the libraries the editor is built with: every element in turn is moved
  towards the front past the elements it is less than, so equivalent elements keep their
  order. The model is this insertion sort.
\<close>

fun insert_sorted :: "('a \<Rightarrow> 'a \<Rightarrow> bool) \<Rightarrow> 'a \<Rightarrow> 'a list \<Rightarrow> 'a list" where
  "insert_sorted lt v [] = [v]"
| "insert_sorted lt v (y # ys) =
     (if lt v y then v # y # ys else y # insert_sorted lt v ys)"

definition std_sort :: "('a \<Rightarrow> 'a \<Rightarrow> bool) \<Rightarrow> 'a list \<Rightarrow> 'a list" where
  "std_sort lt vec = foldl (\<lambda>sorted_prefix v. insert_sorted lt v sorted_prefix) [] vec"

text \<open>
  \<^verbatim>\<open>std::set_difference(first1, last1, first2, last2, out, comp)\<close>:
  \<^verbatim>\<open>
  while (first1 != last1 && first2 != last2)
    if (comp(*first1, *first2)) { *out++ = *first1; ++first1; }
    else if (comp(*first2, *first1)) ++first2;
    else { ++first1; ++first2; }
  return copy(first1, last1, out);
  \<close>
\<close>

fun std_set_difference :: "('a \<Rightarrow> 'a \<Rightarrow> bool) \<Rightarrow> 'a list \<Rightarrow> 'a list \<Rightarrow> 'a list" where
  "std_set_difference lt [] ys = []"
| "std_set_difference lt (x # xs) [] = x # xs"
| "std_set_difference lt (x # xs) (y # ys) =
     (if lt x y then x # std_set_difference lt xs (y # ys)
      else if lt y x then std_set_difference lt (x # xs) ys
      else std_set_difference lt xs ys)"

text \<open>
  \<^verbatim>\<open>std::partition(first, last, pred)\<close> on the bidirectional iterators of a vector:
  \<^verbatim>\<open>
  for (;;) {
    for (;;) { if (first == last) return first;
               if (!pred(*first)) break;
               ++first; }
    do { --last; if (first == last) return first; } while (!pred(*last));
    swap(*first, *last);
    ++first;
  }
  \<close>
  On a list: the elements at the front that satisfy \<open>pred\<close> stay. At the first element
  \<open>x\<close> that does not, \<open>last\<close> walks back over the elements that do not satisfy \<open>pred\<close>
  (they stay, \<open>back\<close> below); if it reaches \<open>x\<close> the loop returns. Otherwise it stops at
  an element \<open>y\<close> that satisfies \<open>pred\<close>, \<open>x\<close> and \<open>y\<close> are swapped, and the loop goes on
  with the elements between them. The second component is the returned iterator, as an
  index into the vector.
\<close>

function std_partition :: "('a \<Rightarrow> bool) \<Rightarrow> 'a list \<Rightarrow> 'a list \<times> nat" where
  "std_partition pred [] = ([], 0)"
| "std_partition pred (x # xs) =
     (if pred x then (let (ys, k) = std_partition pred xs in (x # ys, Suc k))
      else (let front = rev (dropWhile (\<lambda>y. \<not> pred y) (rev xs));
                back = drop (length front) xs
            in if front = [] then (x # xs, 0)
               else (let (ys, k) = std_partition pred (butlast front)
                     in (last front # ys @ x # back, Suc k))))"
  by pat_completeness auto
termination
proof (relation "measure (\<lambda>(pred, xs). length xs)")
  show "wf (measure (\<lambda>(pred, xs). length xs))" by simp
next
  fix pred :: "'a \<Rightarrow> bool" and x :: 'a and xs :: "'a list"
  show "((pred, xs), (pred, x # xs)) \<in> measure (\<lambda>(pred, xs). length xs)" by simp
next
  fix pred :: "'a \<Rightarrow> bool" and x :: 'a and xs front :: "'a list"
  assume "front = rev (dropWhile (\<lambda>y. \<not> pred y) (rev xs))"
  then have "length front \<le> length xs"
    using length_dropWhile_le [of "\<lambda>y. \<not> pred y" "rev xs"] by simp
  then show "((pred, butlast front), (pred, x # xs)) \<in> measure (\<lambda>(pred, xs). length xs)"
    by simp
qed

subsection \<open>FindMissingStrings\<close>

text \<open>
  \<^verbatim>\<open>std::vector<string> FindMissingStrings(std::vector<string>& vec1, std::vector<string>& vec2)\<close>
  sorts both arguments in place with \<^verbatim>\<open>less_stricmp\<close> and calls
  \<^verbatim>\<open>std::set_difference\<close> with no comparator. The model returns the result, then the new
  content of \<open>vec1\<close>, then the new content of \<open>vec2\<close>.
\<close>

definition FindMissingStrings ::
  "string list \<Rightarrow> string list \<Rightarrow> string list \<times> string list \<times> string list" where
  "FindMissingStrings vec1 vec2 =
     (let vec2' = std_sort less_stricmp vec2;
          vec1' = std_sort less_stricmp vec1;
          missingStrings = std_set_difference string_less vec1' vec2'
      in (missingStrings, vec1', vec2'))"

subsection \<open>File groups and the collaborators\<close>

text \<open>
  \<^verbatim>\<open>IFilesGroupProvider\<close> is an interface declared outside the file. The file uses
  \<^verbatim>\<open>GetMainFile()\<close>, \<^verbatim>\<open>GetFiles(false)\<close> and \<^verbatim>\<open>Update()\<close> of it: a group is its
  main file and its list of files, under the names of the two getters.
\<close>

record FilesGroup =
  GetMainFile :: string
  GetFiles :: "string list"

text \<open>
  The flags of \<^verbatim>\<open>CVersionControlFileStatus\<close> are single bits of an \<^verbatim>\<open>int\<close>; their values
  are not in the file. A mask is the set of its bits, and \<^verbatim>\<open>a | b\<close> is the union.
\<close>

datatype EState = eState_UpdatedRemotely | eState_DeletedRemotely | eState_Other nat

datatype CVersionControlResult = CVersionControlResult (succeeded: bool) (error_code: nat)

text \<open>
  The directory tree that \<^verbatim>\<open>QDir\<close> reads: for a directory, the names that
  \<^verbatim>\<open>entryList({ "*.lyr" }, QDir::Files)\<close> returns and, for every name that
  \<^verbatim>\<open>entryList(QDir::Dirs | QDir::NoDotAndDotDot)\<close> returns, the directory of that name.
  A file system maps a path to the tree found there.
\<close>

datatype dir_tree = Dir (lyr_entries: "string list") (dir_entries: "(string \<times> dir_tree) list")

type_synonym filesystem = "string \<Rightarrow> dir_tree"

text \<open>
  The collaborators. None of them is defined in the file; each field says what the file
  asks of it.
  \<^item> \<open>vcs_status\<close>: the status that \<^verbatim>\<open>CAssetsVCSStatusProvider\<close> holds for a group once
    \<^verbatim>\<open>UpdateStatus\<close> has completed;
  \<^item> \<open>files_on_disk\<close>: the file list that \<^verbatim>\<open>Update()\<close> derives for a group from the
    disk;
  \<^item> \<open>pull_result\<close>, \<open>pull_effect\<close>: the result that \<^verbatim>\<open>GetLatest\<close> hands to its
    continuation, and what the pull does to the disk;
  \<^item> \<open>path_make\<close>, \<open>game_folder\<close>, \<open>assets_relative_path\<close>, \<open>to_game_path\<close>:
    \<^verbatim>\<open>PathUtil::Make\<close>, \<^verbatim>\<open>PathUtil::GetGameFolder\<close>,
    \<^verbatim>\<open>PathUtil::GetGameProjectAssetsRelativePath\<close> and \<^verbatim>\<open>PathUtil::ToGamePath\<close>;
  \<^item> \<open>assets_to_groups\<close>, \<open>layers_to_groups\<close>: the two overloads of
    \<^verbatim>\<open>CAssetFilesProvider::ToFileGroups\<close>; an asset and a layer are the addresses the
    caller passes.
\<close>

record env =
  vcs_status :: "FilesGroup \<Rightarrow> EState set"
  files_on_disk :: "filesystem \<Rightarrow> FilesGroup \<Rightarrow> string list"
  pull_result :: "string list \<Rightarrow> string list \<Rightarrow> filesystem \<Rightarrow> CVersionControlResult"
  pull_effect :: "string list \<Rightarrow> string list \<Rightarrow> filesystem \<Rightarrow> filesystem"
  path_make :: "string \<Rightarrow> string \<Rightarrow> string"
  game_folder :: string
  assets_relative_path :: string
  to_game_path :: "string \<Rightarrow> string"
  assets_to_groups :: "nat list \<Rightarrow> FilesGroup list"
  layers_to_groups :: "nat list \<Rightarrow> FilesGroup list"

text \<open>What the file asks of its collaborators, in the order it asks.\<close>

datatype event =
    EvUpdateStatus "FilesGroup list" "string list"
  | EvGetLatest "string list" "string list"
  | EvCallback nat
  | EvCryLog string
  | EvImportLayerFromFile string
  | EvSetModified string bool

record world =
  disk :: filesystem
  events :: "event list"

definition log_event :: "event \<Rightarrow> world \<Rightarrow> world" where
  "log_event e w = w\<lparr>events := events w @ [e]\<rparr>"

text \<open>
  A \<^verbatim>\<open>std::function<void()>\<close> is empty (\<open>None\<close>) or holds a callable. The callables that
  reach the file are: one the caller supplies, known by a tag, whose call is the event
  \<open>EvCallback\<close>; the lambda \<^verbatim>\<open>[] {}\<close> of line 110; and the closure \<^verbatim>\<open>onSync\<close> of line 199
  with its three captures. Calling an empty \<^verbatim>\<open>std::function\<close> throws
  \<^verbatim>\<open>std::bad_function_call\<close>.
\<close>

datatype func =
    UserCallback nat
  | NoOp
  | OnSync "string list" "string list" "func option"

datatype error = bad_function_call

text \<open>
  Modelled from the spec: \<^verbatim>\<open>CAssetsVCSStatusProvider::HasStatus\<close> is not in the file. The
  relevance filter keeps the groups "whose status includes \<^verbatim>\<open>UpdatedRemotely\<close> or
  \<^verbatim>\<open>DeletedRemotely\<close>": the status and the mask share a bit.
\<close>

definition HasStatus :: "env \<Rightarrow> FilesGroup \<Rightarrow> EState set \<Rightarrow> bool" where
  "HasStatus env fileGroup status = (vcs_status env fileGroup \<inter> status \<noteq> {})"

text \<open>
  Modelled from the spec: \<^verbatim>\<open>CAssetsVCSStatusProvider::UpdateStatus\<close> and
  \<^verbatim>\<open>CVersionControl::GetLatest\<close> are not in the file. Both are "treated as always
  eventually complete": each runs the continuation it is given once. \<open>pulled\<close> is the
  world a pull leaves: the request is in the trace and the disk is what the pull made of
  it. The two \<^verbatim>\<open>false\<close> arguments of \<^verbatim>\<open>GetLatest\<close> are the same at every call and are
  left out.
\<close>

definition UpdateStatus ::
  "FilesGroup list \<Rightarrow> string list \<Rightarrow> (world \<Rightarrow> error + world) \<Rightarrow> world \<Rightarrow> error + world" where
  "UpdateStatus fileGroups folders callback w =
     callback (log_event (EvUpdateStatus fileGroups folders) w)"

definition pulled :: "env \<Rightarrow> string list \<Rightarrow> string list \<Rightarrow> world \<Rightarrow> world" where
  "pulled env filePaths folders w =
     log_event (EvGetLatest filePaths folders)
       (w\<lparr>disk := pull_effect env filePaths folders (disk w)\<rparr>)"

definition GetLatest ::
  "env \<Rightarrow> string list \<Rightarrow> string list \<Rightarrow> (CVersionControlResult \<Rightarrow> world \<Rightarrow> error + world)
     \<Rightarrow> world \<Rightarrow> error + world" where
  "GetLatest env filePaths folders callback w =
     callback (pull_result env filePaths folders (disk w)) (pulled env filePaths folders w)"

text \<open>Modelled from the spec: \<^verbatim>\<open>Update()\<close> "re-derives \<^verbatim>\<open>Files()\<close> from on-disk state".\<close>

definition Update :: "env \<Rightarrow> filesystem \<Rightarrow> FilesGroup \<Rightarrow> FilesGroup" where
  "Update env fs fileGroup = fileGroup\<lparr>GetFiles := files_on_disk env fs fileGroup\<rparr>"

subsection \<open>The helpers of the private namespace\<close>

definition GetAllFiles :: "FilesGroup list \<Rightarrow> string list" where
  "GetAllFiles fileGroups = foldl (\<lambda>result pFileGroup. result @ GetFiles pFileGroup) [] fileGroups"

definition GetAllMainFiles :: "FilesGroup list \<Rightarrow> string list" where
  "GetAllMainFiles fileGroups = map GetMainFile fileGroups"

text \<open>
  \<^verbatim>\<open>AddLayerFilesInFolderToVec\<close> appends the layer files of a directory, each as
  \<^verbatim>\<open>dir.path() + '/' + str\<close>, and then visits the sub-directories in the order of their
  names' list; the loop over them (lines 81 to 84) is the second function.
  \<^verbatim>\<open>GetLayersFilesInFolders\<close> does this for every folder, joined to the game folder, and
  converts every path it has collected with \<^verbatim>\<open>ToGamePath\<close>.
\<close>

fun AddLayerFilesInFolderToVec :: "string \<Rightarrow> dir_tree \<Rightarrow> string list \<Rightarrow> string list"
  and AddLayerFilesInSubFolders :: "string \<Rightarrow> (string \<times> dir_tree) list \<Rightarrow> string list \<Rightarrow> string list"
  where
  "AddLayerFilesInFolderToVec path (Dir layers folders) layersFiles =
     AddLayerFilesInSubFolders path folders
       (layersFiles @ map (\<lambda>str. path @ ''/'' @ str) layers)"
| "AddLayerFilesInSubFolders path [] layersFiles = layersFiles"
| "AddLayerFilesInSubFolders path ((folder, sub) # rest) layersFiles =
     AddLayerFilesInSubFolders path rest
       (AddLayerFilesInFolderToVec (path @ ''/'' @ folder) sub layersFiles)"

definition GetLayersFilesInFolders :: "env \<Rightarrow> filesystem \<Rightarrow> string list \<Rightarrow> string list" where
  "GetLayersFilesInFolders env fs folders =
     (let layersFiles =
            foldl (\<lambda>layersFiles folder.
                     AddLayerFilesInFolderToVec (path_make env (game_folder env) folder)
                       (fs (path_make env (game_folder env) folder)) layersFiles)
              [] folders
      in map (to_game_path env) layersFiles)"

subsection \<open>Calling a \<^verbatim>\<open>std::function<void()>\<close>\<close>

text \<open>
  The body of \<^verbatim>\<open>onSync\<close> (lines 200 to 213) is the last equation: the folders are scanned
  again, every missing file is logged, imported and marked unmodified, and the caller's
  callback is called when it is not empty.
\<close>

definition import_missing_layer :: "env \<Rightarrow> world \<Rightarrow> string \<Rightarrow> world" where
  "import_missing_layer env w missingFile =
     (let layerPath = path_make env (assets_relative_path env) missingFile
      in log_event (EvSetModified layerPath False)
           (log_event (EvImportLayerFromFile layerPath)
              (log_event (EvCryLog missingFile) w)))"

fun call :: "env \<Rightarrow> func option \<Rightarrow> world \<Rightarrow> error + world" where
  "call env None w = Inl bad_function_call"
| "call env (Some (UserCallback n)) w = Inr (log_event (EvCallback n) w)"
| "call env (Some NoOp) w = Inr w"
| "call env (Some (OnSync originalFiles folders callback)) w =
     (let newFiles = GetLayersFilesInFolders env (disk w) folders;
          missingFiles = fst (FindMissingStrings newFiles originalFiles);
          w' = foldl (import_missing_layer env) w missingFiles
      in if callback \<noteq> None then call env callback w' else Inr w')"

subsection \<open>The orchestrator\<close>

definition CompareFilesAndDownloadMissing ::
  "env \<Rightarrow> string list \<Rightarrow> string list \<Rightarrow> func option \<Rightarrow> world \<Rightarrow> error + world" where
  "CompareFilesAndDownloadMissing env newFiles originalFiles callback w =
     (let missingFiles = fst (FindMissingStrings newFiles originalFiles)
      in if missingFiles \<noteq> []
         then GetLatest env missingFiles [] (\<lambda>result. call env callback) w
         else call env callback w)"

text \<open>
  The group list that \<^verbatim>\<open>onGetLatest\<close> (lines 154 to 176) works on after its first two
  statements: every group is updated, then the groups from \<open>firstDeletedIndex\<close> on are
  erased.
\<close>

definition groups_after_pull ::
  "env \<Rightarrow> filesystem \<Rightarrow> FilesGroup list \<Rightarrow> nat \<Rightarrow> FilesGroup list" where
  "groups_after_pull env fs pFileGroups firstDeletedIndex =
     (let updated = map (Update env fs) pFileGroups
      in if firstDeletedIndex \<noteq> length updated then take firstDeletedIndex updated
         else updated)"

definition onGetLatest ::
  "env \<Rightarrow> string list \<Rightarrow> FilesGroup list \<Rightarrow> nat \<Rightarrow> func option
     \<Rightarrow> CVersionControlResult \<Rightarrow> world \<Rightarrow> error + world" where
  "onGetLatest env originalFiles pFileGroups firstDeletedIndex callback result w =
     (let pFileGroups' = groups_after_pull env (disk w) pFileGroups firstDeletedIndex
      in if pFileGroups' = [] then call env callback w
         else CompareFilesAndDownloadMissing env (GetAllFiles pFileGroups') originalFiles
                callback w)"

text \<open>
  The relevance filter (lines 121 to 129) and the deletion partition (lines 146 to 150),
  each with the list it leaves in \<open>*pFileGroups\<close>.
\<close>

definition changed_remotely :: "env \<Rightarrow> FilesGroup list \<Rightarrow> FilesGroup list" where
  "changed_remotely env pFileGroups =
     (let (parted, firstNotChangedRemotely) =
            std_partition
              (\<lambda>pFileGroup. HasStatus env pFileGroup
                 ({eState_UpdatedRemotely} \<union> {eState_DeletedRemotely}))
              pFileGroups
      in if firstNotChangedRemotely \<noteq> length parted then take firstNotChangedRemotely parted
         else parted)"

definition deleted_last :: "env \<Rightarrow> FilesGroup list \<Rightarrow> FilesGroup list \<times> nat" where
  "deleted_last env pFileGroups =
     std_partition (\<lambda>pFileGroup. \<not> HasStatus env pFileGroup {eState_DeletedRemotely})
       pFileGroups"

text \<open>The lambda that \<^verbatim>\<open>Sync\<close> passes to \<^verbatim>\<open>UpdateStatus\<close> (lines 116 to 180).\<close>

definition onUpdateStatus ::
  "env \<Rightarrow> FilesGroup list \<Rightarrow> string list \<Rightarrow> func option \<Rightarrow> world \<Rightarrow> error + world" where
  "onUpdateStatus env pFileGroups folders callback w =
     (let pFileGroups1 = changed_remotely env pFileGroups
      in if pFileGroups1 = [] then
           (if folders = [] then call env callback w
            else GetLatest env [] folders (\<lambda>result. call env callback) w)
         else
           (let (pFileGroups2, firstDeletedIndex) = deleted_last env pFileGroups1;
                originalFiles = GetAllFiles pFileGroups2
            in GetLatest env originalFiles folders
                 (onGetLatest env originalFiles pFileGroups2 firstDeletedIndex callback) w))"

definition Sync ::
  "env \<Rightarrow> FilesGroup list \<Rightarrow> string list \<Rightarrow> func option \<Rightarrow> world \<Rightarrow> error + world" where
  "Sync env fileGroups folders callback w =
     (let callback' = (if callback = None then Some NoOp else callback)
      in UpdateStatus fileGroups [] (onUpdateStatus env fileGroups folders callback') w)"

definition Sync_assets ::
  "env \<Rightarrow> nat list \<Rightarrow> string list \<Rightarrow> func option \<Rightarrow> world \<Rightarrow> error + world" where
  "Sync_assets env assets folders callback w =
     Sync env (assets_to_groups env assets) folders callback w"

definition Sync_group :: "env \<Rightarrow> FilesGroup \<Rightarrow> func option \<Rightarrow> world \<Rightarrow> error + world" where
  "Sync_group env pFileGroup callback w = Sync env [pFileGroup] [] callback w"

definition Sync_layers ::
  "env \<Rightarrow> nat list \<Rightarrow> string list \<Rightarrow> func option \<Rightarrow> world \<Rightarrow> error + world" where
  "Sync_layers env layers folders callback w =
     (let originalFiles = GetLayersFilesInFolders env (disk w) folders;
          onSync = OnSync originalFiles folders callback
      in Sync env (layers_to_groups env layers) folders (Some onSync) w)"

subsection \<open>Observations on a run\<close>

text \<open>How often the caller's callback with tag \<open>n\<close> has been called.\<close>

definition callback_calls :: "nat \<Rightarrow> world \<Rightarrow> nat" where
  "callback_calls n w = count_list (events w) (EvCallback n)"

text \<open>The trace of a run that returned, \<open>None\<close> for a run that threw.\<close>

definition events_of :: "error + world \<Rightarrow> event list option" where
  "events_of r = (case r of Inl e \<Rightarrow> None | Inr w \<Rightarrow> Some (events w))"

subsection \<open>Concrete groups, disks and collaborators\<close>

text \<open>
  The groups of the scenarios: \<^verbatim>\<open>a.cgf\<close> and \<^verbatim>\<open>c.cgf\<close> are updated remotely, \<^verbatim>\<open>b.cgf\<close> is
  deleted remotely, \<^verbatim>\<open>Body.cgf\<close> is updated remotely, every other group is unchanged.
  After the pull \<^verbatim>\<open>a.cgf\<close> refers to \<^verbatim>\<open>a.cgf.mtl\<close> and \<^verbatim>\<open>Body.cgf\<close> to \<^verbatim>\<open>arm.dds\<close>. The pull
  brings the layer file \<^verbatim>\<open>ai.lyr\<close> into the folder \<^verbatim>\<open>Levels\<close>, which holds \<^verbatim>\<open>Main.lyr\<close>.
\<close>

definition asset_group :: "string \<Rightarrow> FilesGroup" where
  "asset_group name = \<lparr>GetMainFile = name, GetFiles = [name]\<rparr>"

definition example_status :: "FilesGroup \<Rightarrow> EState set" where
  "example_status g =
     (if GetMainFile g = ''a.cgf'' \<or> GetMainFile g = ''c.cgf'' \<or> GetMainFile g = ''Body.cgf''
      then {eState_UpdatedRemotely}
      else if GetMainFile g = ''b.cgf'' then {eState_DeletedRemotely}
      else {})"

definition example_files_on_disk :: "filesystem \<Rightarrow> FilesGroup \<Rightarrow> string list" where
  "example_files_on_disk fs g =
     (if GetMainFile g = ''a.cgf'' then [''a.cgf'', ''a.cgf.mtl'']
      else if GetMainFile g = ''Body.cgf'' then [''Body.cgf'', ''arm.dds'']
      else GetFiles g)"

definition disk_before :: filesystem where
  "disk_before path = (if path = ''game/Levels'' then Dir [''Main.lyr''] [] else Dir [] [])"

definition disk_after :: filesystem where
  "disk_after path =
     (if path = ''game/Levels'' then Dir [''ai.lyr'', ''Main.lyr''] [] else Dir [] [])"

definition example_env :: env where
  "example_env =
     \<lparr>vcs_status = example_status,
      files_on_disk = example_files_on_disk,
      pull_result = (\<lambda>filePaths folders fs. CVersionControlResult True 0),
      pull_effect = (\<lambda>filePaths folders fs. disk_after),
      path_make = (\<lambda>a b. a @ ''/'' @ b),
      game_folder = ''game'',
      assets_relative_path = ''Assets'',
      to_game_path = drop 5,
      assets_to_groups = map (\<lambda>asset. asset_group ''a.cgf''),
      layers_to_groups = (\<lambda>layers. [])\<rparr>"

definition start :: world where
  "start = \<lparr>disk = disk_before, events = []\<rparr>"

section \<open>Properties\<close>

subsection \<open>What \<open>std_sort\<close> and \<open>std_set_difference\<close> return\<close>

lemma mset_insert_sorted: "mset (insert_sorted lt v ys) = add_mset v (mset ys)"
  by (induction ys) simp_all

lemma mset_insertion_loop:
  "mset (foldl (\<lambda>sorted_prefix v. insert_sorted lt v sorted_prefix) acc vec) = mset acc + mset vec"
  by (induction vec arbitrary: acc) (simp_all add: mset_insert_sorted)

lemma mset_std_sort: "mset (std_sort lt vec) = mset vec"
  by (simp add: std_sort_def mset_insertion_loop)

lemma set_insert_sorted: "set (insert_sorted lt v ys) = insert v (set ys)"
  by (induction ys) auto

lemma sorted_insert_stricmp:
  "sorted (map (map to_lower) ys) \<Longrightarrow> sorted (map (map to_lower) (insert_sorted less_stricmp v ys))"
  by (induction ys) (auto simp: less_stricmp_def set_insert_sorted)

lemma sorted_insertion_loop:
  "sorted (map (map to_lower) acc) \<Longrightarrow>
   sorted (map (map to_lower) (foldl (\<lambda>sorted_prefix v. insert_sorted less_stricmp v sorted_prefix) acc vec))"
  by (induction vec arbitrary: acc) (simp_all add: sorted_insert_stricmp)

lemma sorted_std_sort: "sorted (map (map to_lower) (std_sort less_stricmp vec))"
  by (simp add: std_sort_def sorted_insertion_loop)

lemma set_difference_self: "std_set_difference string_less xs xs = []"
  by (induction xs) (simp_all add: string_less_def)

lemma set_difference_nil: "std_set_difference lt xs [] = xs"
  by (cases xs) simp_all

lemma set_difference_keeps_absent:
  "x \<in> set xs \<Longrightarrow> x \<notin> set ys \<Longrightarrow> x \<in> set (std_set_difference string_less xs ys)"
  by (induction string_less xs ys rule: std_set_difference.induct)
     (auto simp: string_less_def)

lemma set_difference_subseq: "mset (std_set_difference lt xs ys) \<subseteq># mset xs"
proof (induction lt xs ys rule: std_set_difference.induct)
  case (3 lt x xs y ys)
  then show ?case
    by (auto intro: subset_mset.order_trans [OF _ mset_subset_eq_add_mset_cancel [THEN iffD2]]
        simp: subset_mset.le_iff_add)
qed simp_all

text \<open>
  Two equations of \<open>FindMissingStrings\<close> that hold for every input: a vector has nothing
  that is missing from itself, and all of it is missing from the empty vector.
\<close>

lemma FindMissingStrings_self: "fst (FindMissingStrings vec vec) = []"
  by (simp add: FindMissingStrings_def Let_def set_difference_self)

lemma FindMissingStrings_nil: "fst (FindMissingStrings vec []) = std_sort less_stricmp vec"
  by (simp add: FindMissingStrings_def Let_def std_sort_def set_difference_nil)

text \<open>
  The result never lacks a string: what occurs in \<open>vec1\<close> and, in this spelling, not in
  \<open>vec2\<close> is returned, and only strings of \<open>vec1\<close> are returned.
\<close>

lemma FindMissingStrings_keeps_absent:
  "x \<in> set vec1 \<Longrightarrow> x \<notin> set vec2 \<Longrightarrow> x \<in> set (fst (FindMissingStrings vec1 vec2))"
proof -
  assume "x \<in> set vec1" and "x \<notin> set vec2"
  then have "x \<in> set (std_sort less_stricmp vec1)" and "x \<notin> set (std_sort less_stricmp vec2)"
    using mset_std_sort [of less_stricmp vec1] mset_std_sort [of less_stricmp vec2]
    by (metis set_mset_mset)+
  then show ?thesis
    by (simp add: FindMissingStrings_def Let_def set_difference_keeps_absent)
qed

lemma FindMissingStrings_subseq: "mset (fst (FindMissingStrings vec1 vec2)) \<subseteq># mset vec1"
  using set_difference_subseq [of string_less "std_sort less_stricmp vec1" "std_sort less_stricmp vec2"]
  by (simp add: FindMissingStrings_def Let_def mset_std_sort)

lemma set_difference_sorted:
  "sorted xs \<Longrightarrow> sorted ys \<Longrightarrow>
   mset (std_set_difference string_less xs ys) = mset xs - mset ys"
proof (induction string_less xs ys rule: std_set_difference.induct)
  case (1 ys)
  show ?case by simp
next
  case (2 x xs)
  show ?case by simp
next
  case (3 x xs y ys)
  show ?case
  proof (cases "x < y")
    case True
    with "3.prems"(2) have "x \<notin> set (y # ys)" by auto
    then have "mset (x # xs) - mset (y # ys) = add_mset x (mset xs - mset (y # ys))"
      by (metis mset.simps(2) set_mset_mset diff_add_mset_swap)
    with True 3 show ?thesis by (simp add: string_less_def)
  next
    case False
    show ?thesis
    proof (cases "y < x")
      case True
      with "3.prems"(1) have "y \<notin> set (x # xs)" by auto
      then have "y \<notin># mset (x # xs) - mset ys" using in_diffD [of y "mset (x # xs)" "mset ys"] by auto
      moreover have "mset (x # xs) - mset (y # ys) = mset (x # xs) - mset ys - {#y#}"
        by (simp add: multiset_eq_iff)
      ultimately have "mset (x # xs) - mset (y # ys) = mset (x # xs) - mset ys"
        using diff_single_trivial [of y "mset (x # xs) - mset ys"] by metis
      with True False 3 show ?thesis by (simp add: string_less_def)
    next
      case F2: False
      with False have "x = y" by simp
      with False 3 show ?thesis by (simp add: string_less_def)
    qed
  qed
qed

text \<open>
  On strings with no upper-case letter the two orders agree: the sorted vectors are sorted
  for \<open>operator<\<close> as well, and the result holds every string of \<open>vec1\<close> as often as it
  occurs there more often than in \<open>vec2\<close>.
\<close>

lemma FindMissingStrings_lower_case:
  assumes "\<forall>s\<in>set vec1 \<union> set vec2. map to_lower s = s"
  shows "mset (fst (FindMissingStrings vec1 vec2)) = mset vec1 - mset vec2"
proof -
  have srt: "sorted (std_sort less_stricmp vec)" if "\<forall>s\<in>set vec. map to_lower s = s" for vec
  proof -
    have "set (std_sort less_stricmp vec) = set vec"
      using mset_std_sort [of less_stricmp vec] by (metis set_mset_mset)
    with that have "map (map to_lower) (std_sort less_stricmp vec) = std_sort less_stricmp vec"
      by (auto intro: map_idI)
    with sorted_std_sort [of vec] show ?thesis by simp
  qed
  from assms have "sorted (std_sort less_stricmp vec1)" and "sorted (std_sort less_stricmp vec2)"
    by (simp_all add: srt)
  then show ?thesis
    by (simp add: FindMissingStrings_def Let_def set_difference_sorted mset_std_sort)
qed

subsection \<open>What \<open>std_partition\<close> returns\<close>

lemma split_back:
  "rev (dropWhile Q (rev xs)) @ rev (takeWhile Q (rev xs)) = xs"
proof -
  have "rev (takeWhile Q (rev xs) @ dropWhile Q (rev xs)) = xs" by simp
  then show ?thesis by (simp only: rev_append)
qed

lemma back_is_drop:
  "drop (length (rev (dropWhile Q (rev xs)))) xs = rev (takeWhile Q (rev xs))"
proof -
  have "drop (length (rev (dropWhile Q (rev xs)))) (rev (dropWhile Q (rev xs)) @ rev (takeWhile Q (rev xs)))
        = rev (takeWhile Q (rev xs))" by simp
  then show ?thesis by (simp only: split_back)
qed

lemma last_front:
  assumes "rev (dropWhile Q (rev xs)) \<noteq> []"
  shows "\<not> Q (last (rev (dropWhile Q (rev xs))))"
proof -
  from assms have ne: "dropWhile Q (rev xs) \<noteq> []" by simp
  then have "\<not> Q (hd (dropWhile Q (rev xs)))" by (rule hd_dropWhile)
  with ne show ?thesis by (simp add: last_rev)
qed

lemma std_partition_keep:
  "pred x \<Longrightarrow> std_partition pred (x # xs) =
     (x # fst (std_partition pred xs), Suc (snd (std_partition pred xs)))"
  by (simp add: split_beta)

lemma std_partition_stop:
  "\<not> pred x \<Longrightarrow> rev (dropWhile (\<lambda>y. \<not> pred y) (rev xs)) = [] \<Longrightarrow>
   std_partition pred (x # xs) = (x # xs, 0)"
  by simp

lemma std_partition_swap:
  assumes "\<not> pred x" and "front = rev (dropWhile (\<lambda>y. \<not> pred y) (rev xs))" and "front \<noteq> []"
  shows "std_partition pred (x # xs) =
     (last front # fst (std_partition pred (butlast front)) @ x # drop (length front) xs,
      Suc (snd (std_partition pred (butlast front))))"
  using assms by (simp add: split_beta Let_def)

declare std_partition.simps(2) [simp del]

lemma no_front_all_fail:
  assumes "rev (dropWhile (\<lambda>y. \<not> pred y) (rev xs)) = []"
  shows "filter pred xs = []"
proof -
  from assms have "dropWhile (\<lambda>y. \<not> pred y) (rev xs) = []" by simp
  then have "\<forall>y\<in>set (rev xs). \<not> pred y" by (simp add: dropWhile_eq_Nil_conv)
  then show ?thesis by (simp add: filter_empty_conv)
qed

lemma back_all_fail:
  "filter pred (drop (length (rev (dropWhile (\<lambda>y. \<not> pred y) (rev xs)))) xs) = []"
proof -
  have "\<forall>y\<in>set (takeWhile (\<lambda>y. \<not> pred y) (rev xs)). \<not> pred y"
    by (auto dest: set_takeWhileD)
  then show ?thesis by (simp only: back_is_drop) (simp add: filter_empty_conv)
qed

lemma mset_std_partition: "mset (fst (std_partition pred xs)) = mset xs"
proof (induction pred xs rule: std_partition.induct)
  case (1 pred)
  show ?case by simp
next
  case (2 pred x xs)
  define front where "front = rev (dropWhile (\<lambda>y. \<not> pred y) (rev xs))"
  define bk where "bk = drop (length front) xs"
  have xs: "xs = front @ bk"
    unfolding bk_def front_def by (simp only: back_is_drop split_back)
  show ?case
  proof (cases "pred x")
    case True
    with 2(1) show ?thesis by (simp add: std_partition_keep)
  next
    case False
    show ?thesis
    proof (cases "front = []")
      case True
      with False show ?thesis by (simp add: std_partition_stop front_def)
    next
      case ne: False
      from 2(2)[OF False front_def bk_def ne]
      have IH: "mset (fst (std_partition pred (butlast front))) = mset (butlast front)" .
      have "butlast front @ [last front] = front" using ne by simp
      then have "mset front = add_mset (last front) (mset (butlast front))"
        by (metis mset.simps(1) mset.simps(2) mset_append add.right_neutral union_mset_add_mset_right)
      moreover have "mset xs = mset front + mset bk" by (subst xs) simp
      ultimately show ?thesis
        by (simp add: std_partition_swap[OF False front_def ne] IH bk_def[symmetric])
    qed
  qed
qed

lemma length_std_partition: "length (fst (std_partition pred xs)) = length xs"
  using mset_std_partition [of pred xs] by (metis size_mset)

lemma snd_std_partition: "snd (std_partition pred xs) = length (filter pred xs)"
proof (induction pred xs rule: std_partition.induct)
  case (1 pred)
  show ?case by simp
next
  case (2 pred x xs)
  define front where "front = rev (dropWhile (\<lambda>y. \<not> pred y) (rev xs))"
  define bk where "bk = drop (length front) xs"
  have xs: "xs = front @ bk"
    unfolding bk_def front_def by (simp only: back_is_drop split_back)
  have bk: "filter pred bk = []" unfolding bk_def front_def by (rule back_all_fail)
  show ?case
  proof (cases "pred x")
    case True
    with 2(1) show ?thesis by (simp add: std_partition_keep)
  next
    case False
    show ?thesis
    proof (cases "front = []")
      case True
      with False show ?thesis
        by (simp add: std_partition_stop front_def no_front_all_fail)
    next
      case ne: False
      from 2(2)[OF False front_def bk_def ne]
      have IH: "snd (std_partition pred (butlast front)) = length (filter pred (butlast front))" .
      have fr: "butlast front @ [last front] = front" using ne by simp
      have "pred (last front)" using last_front [of "\<lambda>y. \<not> pred y" xs] ne by (simp add: front_def)
      then have "filter pred front = filter pred (butlast front) @ [last front]"
        by (subst fr[symmetric]) (simp del: append_butlast_last_id)
      moreover have "filter pred xs = filter pred front @ filter pred bk" by (subst xs) simp
      ultimately show ?thesis
        using False by (simp add: std_partition_swap[OF False front_def ne] IH bk)
    qed
  qed
qed

lemma filter_std_partition:
  "filter pred (fst (std_partition pred xs)) = take (snd (std_partition pred xs)) (fst (std_partition pred xs))
   \<and> filter (\<lambda>y. \<not> pred y) (fst (std_partition pred xs)) = drop (snd (std_partition pred xs)) (fst (std_partition pred xs))"
proof (induction pred xs rule: std_partition.induct)
  case (1 pred)
  show ?case by simp
next
  case (2 pred x xs)
  define front where "front = rev (dropWhile (\<lambda>y. \<not> pred y) (rev xs))"
  define bk where "bk = drop (length front) xs"
  have bk: "filter pred bk = []" unfolding bk_def front_def by (rule back_all_fail)
  then have bk': "filter (\<lambda>y. \<not> pred y) bk = bk" by (simp add: filter_empty_conv filter_id_conv)
  show ?case
  proof (cases "pred x")
    case True
    with 2(1) show ?thesis by (simp add: std_partition_keep)
  next
    case False
    show ?thesis
    proof (cases "front = []")
      case True
      have "filter pred xs = []" using True by (simp add: front_def no_front_all_fail)
      then have "filter (\<lambda>y. \<not> pred y) xs = xs" by (simp add: filter_empty_conv filter_id_conv)
      with False True \<open>filter pred xs = []\<close> show ?thesis
        by (simp add: std_partition_stop front_def)
    next
      case ne: False
      define ys where "ys = fst (std_partition pred (butlast front))"
      define k where "k = snd (std_partition pred (butlast front))"
      from 2(2)[OF False front_def bk_def ne]
      have IH: "filter pred ys = take k ys" "filter (\<lambda>y. \<not> pred y) ys = drop k ys"
        by (simp_all add: ys_def k_def)
      have "k = length (filter pred ys)"
        unfolding k_def ys_def snd_std_partition 
        using mset_std_partition [of pred "butlast front"] by (metis mset_filter size_mset)
      then have kl: "k \<le> length ys" by simp
      have pl: "pred (last front)" using last_front [of "\<lambda>y. \<not> pred y" xs] ne by (simp add: front_def)
      have res: "std_partition pred (x # xs) = (last front # ys @ x # bk, Suc k)"
        by (simp only: std_partition_swap[OF False front_def ne] ys_def k_def bk_def)
      show ?thesis using False pl kl IH bk bk' by (simp add: res)
    qed
  qed
qed

subsection \<open>Runs on concrete inputs\<close>

text \<open>
  No groups and no folders: the callback is called and nothing is pulled. No groups and
  one folder: one pull of that folder, then the callback. One unchanged group: it is
  filtered out, and the run is that of no groups.
\<close>

lemma scenario_empty:
  "events_of (Sync example_env [] [] (Some (UserCallback 0)) start) =
     Some [EvUpdateStatus [] [], EvCallback 0]"
  by code_simp

lemma scenario_folder_only:
  "events_of (Sync example_env [] [''Levels/Forest''] (Some (UserCallback 0)) start) =
     Some [EvUpdateStatus [] [], EvGetLatest [] [''Levels/Forest''], EvCallback 0]"
  by code_simp

lemma scenario_no_op_group:
  "events_of (Sync example_env [asset_group ''u.cgf''] [] (Some (UserCallback 0)) start) =
     Some [EvUpdateStatus [asset_group ''u.cgf''] [], EvCallback 0]"
  by code_simp

text \<open>
  One group that is updated remotely and shows a second file after the pull: the second
  pull fetches that file alone. One group that is deleted remotely: the index is 0, the
  group is erased after the pull and there is no second pull. With an empty callback the
  pulls are the same and no callback is called.
\<close>

lemma scenario_discovery:
  "events_of (Sync example_env [asset_group ''a.cgf''] [] (Some (UserCallback 0)) start) =
     Some [EvUpdateStatus [asset_group ''a.cgf''] [],
           EvGetLatest [''a.cgf''] [],
           EvGetLatest [''a.cgf.mtl''] [],
           EvCallback 0]"
  by code_simp

lemma scenario_deletion:
  "events_of (Sync example_env [asset_group ''b.cgf''] [] (Some (UserCallback 0)) start) =
     Some [EvUpdateStatus [asset_group ''b.cgf''] [],
           EvGetLatest [''b.cgf''] [],
           EvCallback 0]
   \<and> deleted_last example_env [asset_group ''b.cgf''] = ([asset_group ''b.cgf''], 0)"
  by code_simp

lemma scenario_null_callback:
  "events_of (Sync example_env [asset_group ''a.cgf''] [] None start) =
     Some [EvUpdateStatus [asset_group ''a.cgf''] [],
           EvGetLatest [''a.cgf''] [],
           EvGetLatest [''a.cgf.mtl''] []]"
  by code_simp

subsection \<open>The world in which the callback is called\<close>

lemma GetLatest_pulled:
  "GetLatest env filePaths folders (\<lambda>result. k) w = k (pulled env filePaths folders w)"
  by (simp add: GetLatest_def)

lemma callback_calls_pulled [simp]:
  "callback_calls n (pulled env filePaths folders w) = callback_calls n w"
  by (simp add: callback_calls_def pulled_def log_event_def)

lemma callback_calls_status [simp]:
  "callback_calls n (log_event (EvUpdateStatus fileGroups folders) w) = callback_calls n w"
  by (simp add: callback_calls_def log_event_def)

lemma callback_calls_callback [simp]:
  "callback_calls n (log_event (EvCallback n) w) = Suc (callback_calls n w)"
  by (simp add: callback_calls_def log_event_def)

lemma callback_calls_import [simp]:
  "callback_calls n (import_missing_layer env w missingFile) = callback_calls n w"
  by (simp add: callback_calls_def import_missing_layer_def log_event_def Let_def)

lemma callback_calls_imports [simp]:
  "callback_calls n (foldl (import_missing_layer env) w missingFiles) = callback_calls n w"
  by (induction missingFiles arbitrary: w) simp_all

text \<open>
  Every branch of the pipeline ends in one call of the callback it was given. The world
  of that call does not depend on the callback, and the pipeline itself calls no
  callback of the caller's.
\<close>

lemma Compare_calls_back:
  "\<exists>w1. (\<forall>callback. CompareFilesAndDownloadMissing env newFiles originalFiles callback w =
                call env callback w1)
        \<and> (\<forall>n. callback_calls n w1 = callback_calls n w)"
proof (cases "fst (FindMissingStrings newFiles originalFiles) = []")
  case True
  then have "\<forall>callback. CompareFilesAndDownloadMissing env newFiles originalFiles callback w =
      call env callback w"
    by (simp add: CompareFilesAndDownloadMissing_def)
  then show ?thesis by blast
next
  case False
  then have "\<forall>callback. CompareFilesAndDownloadMissing env newFiles originalFiles callback w =
      call env callback (pulled env (fst (FindMissingStrings newFiles originalFiles)) [] w)"
    by (simp add: CompareFilesAndDownloadMissing_def GetLatest_pulled)
  moreover have "\<forall>n. callback_calls n (pulled env (fst (FindMissingStrings newFiles originalFiles)) [] w)
      = callback_calls n w" by simp
  ultimately show ?thesis by blast
qed

lemma onGetLatest_calls_back:
  "\<exists>w1. (\<forall>callback. onGetLatest env originalFiles pFileGroups firstDeletedIndex callback result w =
                call env callback w1)
        \<and> (\<forall>n. callback_calls n w1 = callback_calls n w)"
proof (cases "groups_after_pull env (disk w) pFileGroups firstDeletedIndex = []")
  case True
  then have "\<forall>callback. onGetLatest env originalFiles pFileGroups firstDeletedIndex callback result w =
      call env callback w"
    by (simp add: onGetLatest_def)
  then show ?thesis by blast
next
  case False
  then have "\<forall>callback. onGetLatest env originalFiles pFileGroups firstDeletedIndex callback result w =
      CompareFilesAndDownloadMissing env
        (GetAllFiles (groups_after_pull env (disk w) pFileGroups firstDeletedIndex))
        originalFiles callback w"
    by (simp add: onGetLatest_def)
  with Compare_calls_back show ?thesis by simp
qed

lemma onUpdateStatus_calls_back:
  "\<exists>w1. (\<forall>callback. onUpdateStatus env pFileGroups folders callback w = call env callback w1)
        \<and> (\<forall>n. callback_calls n w1 = callback_calls n w)"
proof (cases "changed_remotely env pFileGroups = []")
  case True
  show ?thesis
  proof (cases "folders = []")
    case True
    with \<open>changed_remotely env pFileGroups = []\<close>
    have "\<forall>callback. onUpdateStatus env pFileGroups folders callback w = call env callback w"
      by (simp add: onUpdateStatus_def)
    then show ?thesis by blast
  next
    case False
    with \<open>changed_remotely env pFileGroups = []\<close>
    have "\<forall>callback. onUpdateStatus env pFileGroups folders callback w =
        call env callback (pulled env [] folders w)"
      by (simp add: onUpdateStatus_def GetLatest_pulled)
    moreover have "\<forall>n. callback_calls n (pulled env [] folders w) = callback_calls n w" by simp
    ultimately show ?thesis by blast
  qed
next
  case False
  define parted where "parted = deleted_last env (changed_remotely env pFileGroups)"
  define originalFiles where "originalFiles = GetAllFiles (fst parted)"
  define w2 where "w2 = pulled env originalFiles folders w"
  from False have unfold: "\<forall>callback. onUpdateStatus env pFileGroups folders callback w =
      onGetLatest env originalFiles (fst parted) (snd parted) callback
        (pull_result env originalFiles folders (disk w)) w2"
    by (simp add: onUpdateStatus_def GetLatest_def split_beta Let_def parted_def
        originalFiles_def w2_def)
  obtain w1 where w1: "\<forall>callback. onGetLatest env originalFiles (fst parted) (snd parted) callback
        (pull_result env originalFiles folders (disk w)) w2 = call env callback w1"
    and calls: "\<forall>n. callback_calls n w1 = callback_calls n w2"
    using onGetLatest_calls_back by blast
  have "\<forall>n. callback_calls n w1 = callback_calls n w" using calls by (simp add: w2_def)
  with unfold w1 show ?thesis by auto
qed

lemma Sync_calls_back:
  "\<exists>w1. (\<forall>callback. Sync env fileGroups folders callback w =
                call env (if callback = None then Some NoOp else callback) w1)
        \<and> (\<forall>n. callback_calls n w1 = callback_calls n w)"
proof -
  obtain w1 where w1: "\<forall>callback. onUpdateStatus env fileGroups folders callback
        (log_event (EvUpdateStatus fileGroups []) w) = call env callback w1"
    and calls: "\<forall>n. callback_calls n w1 = callback_calls n (log_event (EvUpdateStatus fileGroups []) w)"
    using onUpdateStatus_calls_back by blast
  from w1 have "\<forall>callback. Sync env fileGroups folders callback w =
                call env (if callback = None then Some NoOp else callback) w1"
    by (simp add: Sync_def UpdateStatus_def Let_def)
  moreover from calls have "\<forall>n. callback_calls n w1 = callback_calls n w" by simp
  ultimately show ?thesis by blast
qed

lemma call_Some: "\<exists>w'. call env (Some f) w = Inr w'"
  by (induction f arbitrary: w) (auto simp: Let_def)

lemma Sync_layers_calls_back:
  "\<exists>w1. (\<forall>callback. Sync_layers env layers folders callback w =
                (if callback \<noteq> None then call env callback w1 else Inr w1))
        \<and> (\<forall>n. callback_calls n w1 = callback_calls n w)"
proof -
  define originalFiles where "originalFiles = GetLayersFilesInFolders env (disk w) folders"
  obtain w0 where w0: "\<forall>callback. Sync env (layers_to_groups env layers) folders callback w =
      call env (if callback = None then Some NoOp else callback) w0"
    and calls: "\<forall>n. callback_calls n w0 = callback_calls n w"
    using Sync_calls_back by blast
  define w1 where "w1 = foldl (import_missing_layer env) w0
      (fst (FindMissingStrings (GetLayersFilesInFolders env (disk w0) folders) originalFiles))"
  have "\<forall>callback. Sync_layers env layers folders callback w =
      (if callback \<noteq> None then call env callback w1 else Inr w1)"
    using w0 by (simp add: Sync_layers_def Let_def originalFiles_def w1_def)
  moreover have "\<forall>n. callback_calls n w1 = callback_calls n w"
    using calls by (simp add: w1_def)
  ultimately show ?thesis by blast
qed

lemma Sync_user_callback_once:
  "\<exists>w'. Sync env fileGroups folders (Some (UserCallback n)) w = Inr w'
         \<and> callback_calls n w' = Suc (callback_calls n w)"
proof -
  obtain w1 where "Sync env fileGroups folders (Some (UserCallback n)) w =
      call env (Some (UserCallback n)) w1"
    and "callback_calls n w1 = callback_calls n w"
    using Sync_calls_back [of env fileGroups folders w] by auto
  then show ?thesis by simp
qed

lemma Sync_layers_user_callback_once:
  "\<exists>w'. Sync_layers env layers folders (Some (UserCallback n)) w = Inr w'
         \<and> callback_calls n w' = Suc (callback_calls n w)"
proof -
  define onSync where "onSync = OnSync (GetLayersFilesInFolders env (disk w) folders) folders
      (Some (UserCallback n))"
  obtain w1 where "Sync env (layers_to_groups env layers) folders (Some onSync) w =
      call env (Some onSync) w1"
    and "callback_calls n w1 = callback_calls n w"
    using Sync_calls_back [of env "layers_to_groups env layers" folders w] by auto
  then show ?thesis by (simp add: Sync_layers_def Let_def onSync_def)
qed

subsection \<open>The completion callback\<close>

text \<open>
  C1. Whatever the groups, the folders and the collaborators are, hence in every branch of
  the pipeline, each of the four overloads of \<open>Sync\<close> returns normally and has called the
  callback the caller supplied exactly once: the trace holds one more call of it than
  before. The collaborators are taken to complete, as the model of \<open>UpdateStatus\<close> and
  \<open>GetLatest\<close> says.
\<close>

theorem Sync_callback_exactly_once:
  "(\<exists>w'. Sync env fileGroups folders (Some (UserCallback n)) w = Inr w'
         \<and> callback_calls n w' = Suc (callback_calls n w))
   \<and> (\<exists>w'. Sync_assets env assets folders (Some (UserCallback n)) w = Inr w'
         \<and> callback_calls n w' = Suc (callback_calls n w))
   \<and> (\<exists>w'. Sync_group env pFileGroup (Some (UserCallback n)) w = Inr w'
         \<and> callback_calls n w' = Suc (callback_calls n w))
   \<and> (\<exists>w'. Sync_layers env layers folders (Some (UserCallback n)) w = Inr w'
         \<and> callback_calls n w' = Suc (callback_calls n w))"
  using Sync_user_callback_once Sync_layers_user_callback_once
  by (simp add: Sync_assets_def Sync_group_def)

text \<open>
  C10. A null callback is safe. \<open>Sync\<close> with an empty callback is \<open>Sync\<close> with the no-op
  lambda. It returns normally, in the world in which a caller's callback would have been
  called: the pipeline is the same, only the call is missing. The same holds for the
  layers overload, where \<open>onSync\<close> tests the caller's callback before it calls it. No
  overload throws \<open>bad_function_call\<close>, whatever the callback is.
\<close>

theorem null_callback_is_safe:
  "Sync env fileGroups folders None w = Sync env fileGroups folders (Some NoOp) w
   \<and> (\<exists>w'. Sync env fileGroups folders None w = Inr w'
          \<and> Sync env fileGroups folders (Some (UserCallback n)) w = Inr (log_event (EvCallback n) w'))
   \<and> (\<exists>w'. Sync_layers env layers folders None w = Inr w'
          \<and> Sync_layers env layers folders (Some (UserCallback n)) w = Inr (log_event (EvCallback n) w'))
   \<and> (\<exists>w'. Sync env fileGroups folders callback w = Inr w')
   \<and> (\<exists>w'. Sync_assets env assets folders callback w = Inr w')
   \<and> (\<exists>w'. Sync_group env pFileGroup callback w = Inr w')
   \<and> (\<exists>w'. Sync_layers env layers folders callback w = Inr w')"
proof -
  obtain w1 where w1: "\<forall>callback. Sync env fileGroups folders callback w =
      call env (if callback = None then Some NoOp else callback) w1"
    using Sync_calls_back by blast
  obtain w2 where w2: "\<forall>callback. Sync_layers env layers folders callback w =
      (if callback \<noteq> None then call env callback w2 else Inr w2)"
    using Sync_layers_calls_back by blast
  have a: "Sync env fileGroups folders None w = Sync env fileGroups folders (Some NoOp) w"
    by (simp add: Sync_def)
  have b: "\<exists>w'. Sync env fileGroups folders None w = Inr w'
          \<and> Sync env fileGroups folders (Some (UserCallback n)) w = Inr (log_event (EvCallback n) w')"
    using w1 by simp
  have c: "\<exists>w'. Sync_layers env layers folders None w = Inr w'
          \<and> Sync_layers env layers folders (Some (UserCallback n)) w = Inr (log_event (EvCallback n) w')"
    using w2 by simp
  have d: "\<exists>w'. Sync env gs fs callback w = Inr w'" for gs fs
  proof -
    obtain w3 where "Sync env gs fs callback w =
        call env (if callback = None then Some NoOp else callback) w3"
      using Sync_calls_back by blast
    then show ?thesis using call_Some [of env _ w3] by (cases callback) simp_all
  qed
  have e: "\<exists>w'. Sync_layers env layers folders callback w = Inr w'"
    using w2 call_Some [of env _ w2] by (cases callback) simp_all
  from a b c d e show ?thesis by (simp add: Sync_assets_def Sync_group_def)
qed

subsection \<open>The branch with nothing to synchronise\<close>

lemma changed_remotely_filter:
  "changed_remotely env pFileGroups =
     filter (\<lambda>g. HasStatus env g ({eState_UpdatedRemotely} \<union> {eState_DeletedRemotely}))
       (fst (std_partition (\<lambda>g. HasStatus env g ({eState_UpdatedRemotely} \<union> {eState_DeletedRemotely}))
          pFileGroups))"
  by (simp add: changed_remotely_def split_beta filter_std_partition length_std_partition)

lemma changed_remotely_Nil:
  assumes "\<forall>g\<in>set fileGroups. \<not> HasStatus env g ({eState_UpdatedRemotely} \<union> {eState_DeletedRemotely})"
  shows "changed_remotely env fileGroups = []"
proof -
  let ?P = "\<lambda>g. HasStatus env g ({eState_UpdatedRemotely} \<union> {eState_DeletedRemotely})"
  have "set (fst (std_partition ?P fileGroups)) = set fileGroups"
    using mset_std_partition [of ?P fileGroups] by (metis set_mset_mset)
  with assms show ?thesis by (simp add: changed_remotely_filter filter_empty_conv)
qed

text \<open>
  C7. When no group has the status \<open>UpdatedRemotely\<close> or \<open>DeletedRemotely\<close>, the relevance
  filter leaves no group. With no folders, \<open>Sync\<close> asks for the status and calls the
  callback: there is no pull. With folders, it issues one pull, for no files and those
  folders, and calls the callback after it.
\<close>

theorem Sync_nothing_changed_remotely:
  assumes "\<forall>g\<in>set fileGroups.
             \<not> HasStatus env g ({eState_UpdatedRemotely} \<union> {eState_DeletedRemotely})"
  shows "(\<exists>w'. Sync env fileGroups [] (Some (UserCallback n)) w = Inr w'
            \<and> events w' = events w @ [EvUpdateStatus fileGroups [], EvCallback n])
       \<and> (folders \<noteq> [] \<longrightarrow>
           (\<exists>w'. Sync env fileGroups folders (Some (UserCallback n)) w = Inr w'
              \<and> events w' = events w @
                   [EvUpdateStatus fileGroups [], EvGetLatest [] folders, EvCallback n]))"
  using changed_remotely_Nil [OF assms]
  by (simp add: Sync_def UpdateStatus_def onUpdateStatus_def GetLatest_def pulled_def log_event_def)

theorem Sync_nothing_changed_remotely_witness:
  "\<not> HasStatus example_env (asset_group ''u.cgf'') ({eState_UpdatedRemotely} \<union> {eState_DeletedRemotely})
   \<and> (\<exists>w'. Sync example_env [asset_group ''u.cgf''] [] (Some (UserCallback 0)) start = Inr w'
          \<and> events w' = [EvUpdateStatus [asset_group ''u.cgf''] [], EvCallback 0])
   \<and> (\<exists>w'. Sync example_env [asset_group ''u.cgf''] [''Levels/Forest''] (Some (UserCallback 0)) start = Inr w'
          \<and> events w' = [EvUpdateStatus [asset_group ''u.cgf''] [],
                           EvGetLatest [] [''Levels/Forest''], EvCallback 0])"
proof -
  have h: "\<not> HasStatus example_env (asset_group ''u.cgf'') ({eState_UpdatedRemotely} \<union> {eState_DeletedRemotely})"
    by code_simp
  then have "\<forall>g\<in>set [asset_group ''u.cgf''].
      \<not> HasStatus example_env g ({eState_UpdatedRemotely} \<union> {eState_DeletedRemotely})" by simp
  from Sync_nothing_changed_remotely [OF this, of 0 start "[''Levels/Forest'']"] h
  show ?thesis by (simp add: start_def)
qed

subsection \<open>Pull results\<close>

lemma scan_result_free [simp]:
  "GetLayersFilesInFolders (env\<lparr>pull_result := r\<rparr>) = GetLayersFilesInFolders env"
  by (simp add: GetLayersFilesInFolders_def fun_eq_iff)

lemma import_result_free [simp]:
  "import_missing_layer (env\<lparr>pull_result := r\<rparr>) = import_missing_layer env"
  by (simp add: import_missing_layer_def fun_eq_iff)

lemma call_result_free_aux:
  "env' = env\<lparr>pull_result := r\<rparr> \<Longrightarrow> call env' callback w = call env callback w"
proof (induction env' callback w rule: call.induct)
  case (4 env' originalFiles folders callback w)
  then show ?case by (cases callback) (simp_all add: Let_def)
qed simp_all

lemma call_result_free [simp]: "call (env\<lparr>pull_result := r\<rparr>) callback w = call env callback w"
  by (simp add: call_result_free_aux)

lemma Update_result_free [simp]: "Update (env\<lparr>pull_result := r\<rparr>) = Update env"
  by (simp add: Update_def fun_eq_iff)

lemma HasStatus_result_free [simp]: "HasStatus (env\<lparr>pull_result := r\<rparr>) = HasStatus env"
  by (simp add: HasStatus_def fun_eq_iff)

lemma pulled_result_free [simp]: "pulled (env\<lparr>pull_result := r\<rparr>) = pulled env"
  by (simp add: pulled_def fun_eq_iff)

lemma Compare_result_free [simp]:
  "CompareFilesAndDownloadMissing (env\<lparr>pull_result := r\<rparr>) = CompareFilesAndDownloadMissing env"
  by (simp add: CompareFilesAndDownloadMissing_def GetLatest_def fun_eq_iff Let_def)

lemma onGetLatest_result_free [simp]:
  "onGetLatest (env\<lparr>pull_result := r\<rparr>) = onGetLatest env"
  by (simp add: onGetLatest_def groups_after_pull_def Let_def fun_eq_iff)

lemma onGetLatest_ignores_result:
  "onGetLatest env originalFiles pFileGroups firstDeletedIndex callback result w =
   onGetLatest env originalFiles pFileGroups firstDeletedIndex callback result' w"
  by (simp add: onGetLatest_def)

lemma onUpdateStatus_result_free [simp]:
  "onUpdateStatus (env\<lparr>pull_result := r\<rparr>) pFileGroups folders callback w =
   onUpdateStatus env pFileGroups folders callback w"
  by (auto simp: onUpdateStatus_def changed_remotely_def deleted_last_def
      GetLatest_def split_beta Let_def intro: onGetLatest_ignores_result)

lemma Sync_result_free:
  "Sync (env\<lparr>pull_result := r\<rparr>) fileGroups folders callback w = Sync env fileGroups folders callback w"
  by (simp add: Sync_def UpdateStatus_def)

text \<open>
  C9. The result of a pull is not inspected. Whatever results the version control hands
  to the continuations, a run of \<open>Sync\<close> and of the layers overload is the same run, and
  the caller's callback is called once.
\<close>

theorem pull_results_not_inspected:
  "Sync (env\<lparr>pull_result := r\<rparr>) fileGroups folders callback w =
     Sync env fileGroups folders callback w
   \<and> Sync_layers (env\<lparr>pull_result := r\<rparr>) layers folders callback w =
     Sync_layers env layers folders callback w
   \<and> (\<exists>w'. Sync (env\<lparr>pull_result := r\<rparr>) fileGroups folders (Some (UserCallback n)) w = Inr w'
          \<and> callback_calls n w' = Suc (callback_calls n w))
   \<and> (\<exists>w'. Sync_layers (env\<lparr>pull_result := r\<rparr>) layers folders (Some (UserCallback n)) w = Inr w'
          \<and> callback_calls n w' = Suc (callback_calls n w))"
proof -
  have "Sync_layers (env\<lparr>pull_result := r\<rparr>) layers folders callback w =
     Sync_layers env layers folders callback w"
    by (simp add: Sync_layers_def Sync_result_free)
  with Sync_user_callback_once Sync_layers_user_callback_once show ?thesis
    by (simp add: Sync_result_free)
qed

subsection \<open>The two partitions\<close>

text \<open>
  C3, as the code has it. The relevance filter keeps the groups whose status includes
  \<open>UpdatedRemotely\<close> or \<open>DeletedRemotely\<close>, each as often as it occurs, and no other group.
  The deletion partition keeps every group, returns the number of groups that are not
  deleted remotely, and leaves exactly these in front of that index and the deleted ones
  behind it. Nothing is said about the order within the two parts.
\<close>

theorem partitions_keep_and_order:
  "mset (changed_remotely env fileGroups) =
     filter_mset (\<lambda>g. HasStatus env g ({eState_UpdatedRemotely} \<union> {eState_DeletedRemotely}))
       (mset fileGroups)
   \<and> (case deleted_last env pFileGroups of (parted, firstDeletedIndex) \<Rightarrow>
        mset parted = mset pFileGroups
        \<and> firstDeletedIndex =
            length (filter (\<lambda>g. \<not> HasStatus env g {eState_DeletedRemotely}) pFileGroups)
        \<and> take firstDeletedIndex parted =
            filter (\<lambda>g. \<not> HasStatus env g {eState_DeletedRemotely}) parted
        \<and> drop firstDeletedIndex parted =
            filter (\<lambda>g. HasStatus env g {eState_DeletedRemotely}) parted)"
proof -
  have "mset (changed_remotely env fileGroups) =
     filter_mset (\<lambda>g. HasStatus env g ({eState_UpdatedRemotely} \<union> {eState_DeletedRemotely}))
       (mset fileGroups)"
    by (simp only: changed_remotely_filter mset_filter mset_std_partition)
  moreover have "mset (fst (deleted_last env pFileGroups)) = mset pFileGroups"
    by (simp add: deleted_last_def mset_std_partition)
  moreover have "snd (deleted_last env pFileGroups) =
      length (filter (\<lambda>g. \<not> HasStatus env g {eState_DeletedRemotely}) pFileGroups)"
    by (simp add: deleted_last_def snd_std_partition)
  moreover have "take (snd (deleted_last env pFileGroups)) (fst (deleted_last env pFileGroups)) =
      filter (\<lambda>g. \<not> HasStatus env g {eState_DeletedRemotely}) (fst (deleted_last env pFileGroups))"
    using filter_std_partition [of "\<lambda>g. \<not> HasStatus env g {eState_DeletedRemotely}" pFileGroups]
    by (simp add: deleted_last_def)
  moreover have "drop (snd (deleted_last env pFileGroups)) (fst (deleted_last env pFileGroups)) =
      filter (\<lambda>g. HasStatus env g {eState_DeletedRemotely}) (fst (deleted_last env pFileGroups))"
    using filter_std_partition [of "\<lambda>g. \<not> HasStatus env g {eState_DeletedRemotely}" pFileGroups]
    by (simp add: deleted_last_def)
  ultimately show ?thesis by (simp add: split_beta)
qed

text \<open>
  C3 as stated fails: \<open>std::partition\<close> is not stable. With an unchanged group in front
  of two updated ones, the first swap brings the last group to the front, and the
  filter leaves the two kept groups in the opposite order.
\<close>

theorem relevance_filter_reorders:
  "changed_remotely example_env [asset_group ''u.cgf'', asset_group ''a.cgf'', asset_group ''c.cgf'']
     = [asset_group ''c.cgf'', asset_group ''a.cgf'']
   \<and> filter (\<lambda>g. HasStatus example_env g ({eState_UpdatedRemotely} \<union> {eState_DeletedRemotely}))
        [asset_group ''u.cgf'', asset_group ''a.cgf'', asset_group ''c.cgf'']
     = [asset_group ''a.cgf'', asset_group ''c.cgf'']"
  by code_simp

subsection \<open>Groups that are deleted remotely\<close>

text \<open>
  When the relevance filter leaves a group, the continuation of the broad pull is
  \<open>onGetLatest\<close> with the list and the index of the deletion partition.
\<close>

lemma onUpdateStatus_broad_pull:
  "changed_remotely env pFileGroups \<noteq> [] \<Longrightarrow>
   onUpdateStatus env pFileGroups folders callback w =
     (let parted = deleted_last env (changed_remotely env pFileGroups);
          originalFiles = GetAllFiles (fst parted)
      in onGetLatest env originalFiles (fst parted) (snd parted) callback
           (pull_result env originalFiles folders (disk w))
           (pulled env originalFiles folders w))"
  by (simp add: onUpdateStatus_def GetLatest_def split_beta Let_def)

lemma groups_after_pull_filter:
  "groups_after_pull env fs (fst (deleted_last env pFileGroups)) (snd (deleted_last env pFileGroups)) =
     map (Update env fs)
       (filter (\<lambda>g. \<not> HasStatus env g {eState_DeletedRemotely}) (fst (deleted_last env pFileGroups)))"
proof -
  have "take (snd (deleted_last env pFileGroups)) (fst (deleted_last env pFileGroups)) =
      filter (\<lambda>g. \<not> HasStatus env g {eState_DeletedRemotely}) (fst (deleted_last env pFileGroups))"
    using filter_std_partition [of "\<lambda>g. \<not> HasStatus env g {eState_DeletedRemotely}" pFileGroups]
    by (simp add: deleted_last_def)
  then show ?thesis
    by (auto simp: groups_after_pull_def Let_def take_map)
qed

text \<open>
  \<open>onGetLatest\<close> runs when the broad pull has completed. On the list and the index that
  the deletion partition returned, the groups it compares in the narrow phase are the
  updated groups that are not deleted remotely.
\<close>

lemma onGetLatest_not_deleted:
  "onGetLatest env originalFiles (fst (deleted_last env pFileGroups)) (snd (deleted_last env pFileGroups))
       callback result w =
     (let notDeleted = filter (\<lambda>g. \<not> HasStatus env g {eState_DeletedRemotely})
                         (fst (deleted_last env pFileGroups));
          newFiles = GetAllFiles (map (Update env (disk w)) notDeleted)
      in if notDeleted = [] then call env callback w
         else CompareFilesAndDownloadMissing env newFiles originalFiles callback w)"
  by (simp add: onGetLatest_def groups_after_pull_filter Let_def)

text \<open>
  C4. In every run of \<open>Sync\<close> in which the relevance filter leaves a group, the run after
  the broad pull is this: \<open>newFiles\<close> is collected from the updated groups that are not
  deleted remotely and from no other group, and is compared with \<open>originalFiles\<close>; when
  every group is deleted remotely the callback is called with no comparison. A group
  whose status includes \<open>DeletedRemotely\<close> is in the snapshot and in the broad pull, and
  is gone when the narrow phase starts.
\<close>

theorem deleted_groups_excised:
  assumes "changed_remotely env fileGroups \<noteq> []"
  shows "Sync env fileGroups folders callback w =
     (let kept = fst (deleted_last env (changed_remotely env fileGroups));
          originalFiles = GetAllFiles kept;
          w' = pulled env originalFiles folders (log_event (EvUpdateStatus fileGroups []) w);
          notDeleted = filter (\<lambda>g. \<not> HasStatus env g {eState_DeletedRemotely}) kept;
          newFiles = GetAllFiles (map (Update env (disk w')) notDeleted);
          callback' = (if callback = None then Some NoOp else callback)
      in if notDeleted = [] then call env callback' w'
         else CompareFilesAndDownloadMissing env newFiles originalFiles callback' w')"
  using assms
  by (simp add: Sync_def UpdateStatus_def onUpdateStatus_broad_pull onGetLatest_not_deleted Let_def)

theorem deleted_groups_excised_witness:
  "changed_remotely example_env [asset_group ''b.cgf'', asset_group ''a.cgf''] \<noteq> []
   \<and> deleted_last example_env (changed_remotely example_env [asset_group ''b.cgf'', asset_group ''a.cgf''])
       = ([asset_group ''a.cgf'', asset_group ''b.cgf''], 1)
   \<and> events_of (Sync example_env [asset_group ''b.cgf'', asset_group ''a.cgf''] [] (Some (UserCallback 0)) start)
       = Some [EvUpdateStatus [asset_group ''b.cgf'', asset_group ''a.cgf''] [],
               EvGetLatest [''a.cgf'', ''b.cgf''] [],
               EvGetLatest [''a.cgf.mtl''] [],
               EvCallback 0]"
proof -
  let ?gs = "[asset_group ''b.cgf'', asset_group ''a.cgf'']"
  have h: "changed_remotely example_env ?gs \<noteq> []" by code_simp
  have d: "deleted_last example_env (changed_remotely example_env ?gs)
       = ([asset_group ''a.cgf'', asset_group ''b.cgf''], 1)" by code_simp
  have "events_of
     (let kept = fst (deleted_last example_env (changed_remotely example_env ?gs));
          originalFiles = GetAllFiles kept;
          w' = pulled example_env originalFiles [] (log_event (EvUpdateStatus ?gs []) start);
          notDeleted = filter (\<lambda>g. \<not> HasStatus example_env g {eState_DeletedRemotely}) kept;
          newFiles = GetAllFiles (map (Update example_env (disk w')) notDeleted);
          callback' = (if Some (UserCallback 0) = None then Some NoOp else Some (UserCallback 0))
      in if notDeleted = [] then call example_env callback' w'
         else CompareFilesAndDownloadMissing example_env newFiles originalFiles callback' w')
     = Some [EvUpdateStatus ?gs [],
               EvGetLatest [''a.cgf'', ''b.cgf''] [],
               EvGetLatest [''a.cgf.mtl''] [],
               EvCallback 0]"
    by code_simp
  with deleted_groups_excised [OF h, of "[]" "Some (UserCallback 0)" start] h d
  show ?thesis by simp
qed

subsection \<open>FindMissingStrings and its callers\<close>

text \<open>
  C5, as the code has it. \<open>FindMissingStrings\<close> writes to its two arguments and to
  nothing else: each of them ends sorted by \<open>less_stricmp\<close>, with the elements it had. The
  result is the \<open>std_set_difference\<close> of the two sorted vectors.
\<close>

theorem FindMissingStrings_sorts_arguments:
  "(case FindMissingStrings vec1 vec2 of (missingStrings, vec1', vec2') \<Rightarrow>
      mset vec1' = mset vec1 \<and> sorted (map (map to_lower) vec1')
      \<and> mset vec2' = mset vec2 \<and> sorted (map (map to_lower) vec2')
      \<and> missingStrings = std_set_difference string_less vec1' vec2')"
  by (simp add: FindMissingStrings_def Let_def mset_std_sort sorted_std_sort)

text \<open>
  C5 as stated fails: both arguments are taken by non-const reference and sorted in
  place, so a vector that is not sorted is changed by the call.
\<close>

theorem FindMissingStrings_changes_arguments:
  "FindMissingStrings [''b'', ''a''] [''d'', ''c''] = ([''a'', ''b''], [''a'', ''b''], [''c'', ''d''])
   \<and> fst (snd (FindMissingStrings [''b'', ''a''] [''d'', ''c''])) \<noteq> [''b'', ''a'']
   \<and> snd (snd (FindMissingStrings [''b'', ''a''] [''d'', ''c''])) \<noteq> [''d'', ''c'']"
  by code_simp

text \<open>
  C6 at inputs where it fails. The vectors are sorted with \<open>less_stricmp\<close>, but
  \<open>std::set_difference\<close> is called with no comparator and compares with \<open>operator<\<close>.
  \<^item> \<^verbatim>\<open>Body.cgf\<close> is in both vectors and is returned as missing: \<^verbatim>\<open>arm.dds\<close> sorts before
    it without regard to case and after it byte by byte, so the merge passes
    \<^verbatim>\<open>Body.cgf\<close> of the second vector before it reaches the one of the first.
  \<^item> \<^verbatim>\<open>A\<close> is returned as missing from a vector that holds \<^verbatim>\<open>a\<close>, and changing its case
    changes the result.
  \<^item> The result depends on the order of the first vector.
\<close>

theorem FindMissingStrings_is_not_a_set_difference:
  "fst (FindMissingStrings [''arm.dds'', ''Body.cgf''] [''Body.cgf'']) = [''arm.dds'', ''Body.cgf'']
   \<and> fst (FindMissingStrings [''A''] [''a'']) = [''A'']
   \<and> fst (FindMissingStrings [''a''] [''a'']) = []
   \<and> fst (FindMissingStrings [''a'', ''A''] [''A'']) = [''a'', ''A'']
   \<and> fst (FindMissingStrings [''A'', ''a''] [''A'']) = [''a'']"
  by code_simp

text \<open>
  C2 at an input where it fails. The group \<^verbatim>\<open>Body.cgf\<close> is updated remotely; after the
  broad pull its files are \<^verbatim>\<open>Body.cgf\<close> and \<^verbatim>\<open>arm.dds\<close>. The only new file is \<^verbatim>\<open>arm.dds\<close>,
  and the second pull asks for \<^verbatim>\<open>arm.dds\<close> and for \<^verbatim>\<open>Body.cgf\<close>, which the first pull
  has fetched.
\<close>

theorem narrow_pull_repeats_a_file:
  "events_of (Sync example_env [asset_group ''Body.cgf''] [] (Some (UserCallback 0)) start) =
     Some [EvUpdateStatus [asset_group ''Body.cgf''] [],
           EvGetLatest [''Body.cgf''] [],
           EvGetLatest [''arm.dds'', ''Body.cgf''] [],
           EvCallback 0]"
  by code_simp

text \<open>
  C8 at an input where it fails. The folder \<^verbatim>\<open>Levels\<close> holds \<^verbatim>\<open>Main.lyr\<close> before the
  synchronisation and \<^verbatim>\<open>ai.lyr\<close> and \<^verbatim>\<open>Main.lyr\<close> after it. The layers overload imports
  both: \<^verbatim>\<open>Main.lyr\<close>, which the scan before the synchronisation had found, is imported
  again.
\<close>

theorem layers_import_repeats_a_layer:
  "events_of (Sync_layers example_env [] [''Levels''] (Some (UserCallback 0)) start) =
     Some [EvUpdateStatus [] [],
           EvGetLatest [] [''Levels''],
           EvCryLog ''Levels/ai.lyr'',
           EvImportLayerFromFile ''Assets/Levels/ai.lyr'',
           EvSetModified ''Assets/Levels/ai.lyr'' False,
           EvCryLog ''Levels/Main.lyr'',
           EvImportLayerFromFile ''Assets/Levels/Main.lyr'',
           EvSetModified ''Assets/Levels/Main.lyr'' False,
           EvCallback 0]
   \<and> GetLayersFilesInFolders example_env (disk start) [''Levels''] = [''Levels/Main.lyr'']"
  by code_simp

end
